theory Spec2Isabelle
  imports Main
begin

unbundle bit_operations_syntax

section \<open>The RGB LED driver of \<^verbatim>\<open>pynq/lib/rgbled.py\<close>\<close>

text \<open>
  The module defines one class, \<^verbatim>\<open>RGBLED\<close>, with three class attributes shared by
  all objects (\<^verbatim>\<open>_mmio\<close>, \<^verbatim>\<open>_rgbleds_val\<close>, \<^verbatim>\<open>_rgbleds_start_index\<close>) and three
  attributes per object (\<^verbatim>\<open>index\<close>, \<^verbatim>\<open>_offset\<close>, \<^verbatim>\<open>_val\<close>). Python integers are
  unbounded and are modelled as \<^typ>\<open>int\<close>; the bitwise operators \<^verbatim>\<open>&\<close>, \<^verbatim>\<open>|\<close>, \<^verbatim>\<open>~\<close> are
  the two's complement operations of \<^typ>\<open>int\<close>. A method takes the object and the class
  attributes and returns what it raised or returned together with both after the call, so
  that whatever was assigned before a \<^verbatim>\<open>raise\<close> stays visible.
\<close>

subsection \<open>Exceptions and numbers\<close>

datatype error =
    ValueError string
  | KeyError string
  | TypeError
  | AttributeError

text \<open>
  \<^verbatim>\<open>_rgbleds_start_index\<close> starts as \<^verbatim>\<open>float("inf")\<close> and later holds an \<^verbatim>\<open>int\<close>, so
  the expressions it occurs in range over integers and the two infinite floats.
\<close>

datatype pynum = PInt int | PInf | NInf

text \<open>\<^verbatim>\<open>i < x\<close> for an integer \<^verbatim>\<open>i\<close>.\<close>

fun py_lt :: "int \<Rightarrow> pynum \<Rightarrow> bool" where
  "py_lt i (PInt j) = (i < j)"
| "py_lt i PInf = True"
| "py_lt i NInf = False"

text \<open>\<^verbatim>\<open>i - x\<close> for an integer \<^verbatim>\<open>i\<close>.\<close>

fun py_sub :: "int \<Rightarrow> pynum \<Rightarrow> pynum" where
  "py_sub i (PInt j) = PInt (i - j)"
| "py_sub i PInf = NInf"
| "py_sub i NInf = PInf"

text \<open>\<^verbatim>\<open>x * 3\<close>.\<close>

fun py_mul3 :: "pynum \<Rightarrow> pynum" where
  "py_mul3 (PInt n) = PInt (n * 3)"
| "py_mul3 PInf = PInf"
| "py_mul3 NInf = NInf"

text \<open>
  \<^verbatim>\<open>v << x\<close> and \<^verbatim>\<open>v >> x\<close> for an integer \<^verbatim>\<open>v\<close>: a negative count raises
  \<^verbatim>\<open>ValueError\<close>, a float count raises \<^verbatim>\<open>TypeError\<close>.
\<close>

fun py_lshift :: "int \<Rightarrow> pynum \<Rightarrow> error + int" where
  "py_lshift v (PInt n) =
     (if n < 0 then Inl (ValueError ''negative shift count'') else Inr (push_bit (nat n) v))"
| "py_lshift v PInf = Inl TypeError"
| "py_lshift v NInf = Inl TypeError"

fun py_rshift :: "int \<Rightarrow> pynum \<Rightarrow> error + int" where
  "py_rshift v (PInt n) =
     (if n < 0 then Inl (ValueError ''negative shift count'') else Inr (drop_bit (nat n) v))"
| "py_rshift v PInf = Inl TypeError"
| "py_rshift v NInf = Inl TypeError"

subsection \<open>The external collaborators\<close>

text \<open>
  \<^verbatim>\<open>PL.ip_dict[ip_name]["phys_addr"]\<close>: the table of the programmable logic is a
  parameter, a map from the name of a hardware block to its physical address.
\<close>

type_synonym ip_dict = "string \<Rightarrow> int option"

text \<open>
  Modelled from the spec: the class \<^verbatim>\<open>MMIO\<close> of the package \<^verbatim>\<open>pynq\<close>, which is imported
  by the module and not part of it. The spec describes it as a memory-mapped register
  accessor that, given a base address and a span size, exposes \<^verbatim>\<open>write(byteOffset, value)\<close>
  writing a value at base + byteOffset, and that completes immediately. The accessor
  keeps the writes it has issued, oldest first, each as the address and the value.
\<close>

record MMIO =
  base_addr :: int
  span :: int
  written :: "(int \<times> int) list"

definition MMIO_new :: "int \<Rightarrow> int \<Rightarrow> MMIO" where
  "MMIO_new base len = \<lparr>base_addr = base, span = len, written = []\<rparr>"

definition MMIO_write :: "MMIO \<Rightarrow> int \<Rightarrow> int \<Rightarrow> MMIO" where
  "MMIO_write m ofs v = m\<lparr>written := written m @ [(base_addr m + ofs, v)]\<rparr>"

subsection \<open>Constants\<close>

definition RGBLEDS_XGPIO_OFFSET :: int where "RGBLEDS_XGPIO_OFFSET = 0"
definition RGB_CLEAR :: int where "RGB_CLEAR = 0"
definition RGB_BLUE :: int where "RGB_BLUE = 1"
definition RGB_GREEN :: int where "RGB_GREEN = 2"
definition RGB_CYAN :: int where "RGB_CYAN = 3"
definition RGB_RED :: int where "RGB_RED = 4"
definition RGB_MAGENTA :: int where "RGB_MAGENTA = 5"
definition RGB_YELLOW :: int where "RGB_YELLOW = 6"
definition RGB_WHITE :: int where "RGB_WHITE = 7"

subsection \<open>Class attributes and objects\<close>

record RGBLED_class =
  mmio :: "MMIO option"
  rgbleds_val :: int
  rgbleds_start_index :: pynum

record RGBLED =
  index :: int
  offset :: int
  val :: int

text \<open>The class attributes as the class statement sets them.\<close>

definition class_initial :: RGBLED_class where
  "class_initial = \<lparr>mmio = None, rgbleds_val = 0, rgbleds_start_index = PInf\<rparr>"

subsection \<open>The methods\<close>

text \<open>
  \<^verbatim>\<open>__init__(self, index, ip_name, offset)\<close>. The object under construction is
  reachable only when the constructor returns, so the result is the exception or the
  finished object, with the class attributes after the call.
\<close>

definition init :: "int \<Rightarrow> string \<Rightarrow> int \<Rightarrow> ip_dict \<Rightarrow> RGBLED_class
    \<Rightarrow> (error + RGBLED) \<times> RGBLED_class" where
  "init idx ip_name ofs pl c =
     (case (case mmio c of
              None \<Rightarrow> (case pl ip_name of
                          None \<Rightarrow> Inl (KeyError ip_name)
                        | Some base \<Rightarrow> Inr (c\<lparr>mmio := Some (MMIO_new base 16)\<rparr>))
            | Some m \<Rightarrow> Inr c) of
        Inl e \<Rightarrow> (Inl e, c)
      | Inr c1 \<Rightarrow>
          let c2 = (if ofs = 0 \<and> py_lt idx (rgbleds_start_index c1)
                    then c1\<lparr>rgbleds_start_index := PInt idx\<rparr> else c1)
          in if ofs < 0 then (Inl (ValueError ''Offset cannot be a negative value.''), c2)
             else if ofs mod 4 \<noteq> 0 then (Inl (ValueError ''Offset must be a multiple of 4.''), c2)
             else (Inr \<lparr>index = idx, offset = ofs, val = 0\<rparr>, c2))"

text \<open>The static method \<^verbatim>\<open>_set_rgbleds_value(value, offset=0)\<close>.\<close>

definition set_rgbleds_value :: "int \<Rightarrow> int \<Rightarrow> RGBLED_class \<Rightarrow> (error + unit) \<times> RGBLED_class" where
  "set_rgbleds_value v ofs c =
     (if ofs < 0 then (Inl (ValueError ''Offset cannot be a negative value.''), c)
      else if ofs mod 4 \<noteq> 0 then (Inl (ValueError ''Offset must be a multiple of 4.''), c)
      else
        let c1 = (if ofs = 0 then c\<lparr>rgbleds_val := v\<rparr> else c)
        in case mmio c1 of
             None \<Rightarrow> (Inl AttributeError, c1)
           | Some m \<Rightarrow> (Inr (), c1\<lparr>mmio := Some (MMIO_write m (RGBLEDS_XGPIO_OFFSET + ofs) v)\<rparr>))"

text \<open>The count \<^verbatim>\<open>(self.index-RGBLED._rgbleds_start_index)*3\<close> of the shifts.\<close>

definition shift_count :: "RGBLED \<Rightarrow> RGBLED_class \<Rightarrow> pynum" where
  "shift_count self c = py_mul3 (py_sub (index self) (rgbleds_start_index c))"

text \<open>\<^verbatim>\<open>on(self, color)\<close>.\<close>

definition on :: "int \<Rightarrow> RGBLED \<Rightarrow> RGBLED_class \<Rightarrow> (error + unit) \<times> RGBLED \<times> RGBLED_class" where
  "on color self c =
     (if \<not> (0 \<le> color \<and> color < 8)
      then (Inl (ValueError ''color should be an integer value from 0 to 7.''), self, c)
      else if offset self > 0 then
        let self1 = self\<lparr>val := (val self AND NOT 7) OR color\<rparr>
        in case set_rgbleds_value (val self1) (offset self1) c of (r, c1) \<Rightarrow> (r, self1, c1)
      else
        case py_lshift 7 (shift_count self c) of
          Inl e \<Rightarrow> (Inl e, self, c)
        | Inr rgb_mask \<Rightarrow>
            (case py_lshift color (shift_count self c) of
               Inl e \<Rightarrow> (Inl e, self, c)
             | Inr shifted \<Rightarrow>
                 let new_val = (rgbleds_val c AND NOT rgb_mask) OR shifted
                 in case set_rgbleds_value new_val 0 c of (r, c1) \<Rightarrow> (r, self, c1)))"

text \<open>\<^verbatim>\<open>off(self)\<close>.\<close>

definition off :: "RGBLED \<Rightarrow> RGBLED_class \<Rightarrow> (error + unit) \<times> RGBLED \<times> RGBLED_class" where
  "off self c =
     (if offset self > 0 then
        let self1 = self\<lparr>val := val self AND NOT 7\<rparr>
        in case set_rgbleds_value (val self1) (offset self1) c of (r, c1) \<Rightarrow> (r, self1, c1)
      else
        case py_lshift 7 (shift_count self c) of
          Inl e \<Rightarrow> (Inl e, self, c)
        | Inr rgb_mask \<Rightarrow>
            let new_val = rgbleds_val c AND NOT rgb_mask
            in case set_rgbleds_value new_val 0 c of (r, c1) \<Rightarrow> (r, self, c1))"

text \<open>
  \<^verbatim>\<open>write(self, color)\<close> calls \<^verbatim>\<open>self.on(color)\<close>. The name \<^verbatim>\<open>write\<close> is a keyword of
  Isabelle, hence the suffix.
\<close>

definition write_led :: "int \<Rightarrow> RGBLED \<Rightarrow> RGBLED_class \<Rightarrow> (error + unit) \<times> RGBLED \<times> RGBLED_class" where
  "write_led color self c = on color self c"

text \<open>\<^verbatim>\<open>read(self)\<close> assigns nothing.\<close>

definition read :: "RGBLED \<Rightarrow> RGBLED_class \<Rightarrow> error + int" where
  "read self c =
     (if offset self > 0 then Inr (val self)
      else case py_rshift (rgbleds_val c) (shift_count self c) of
             Inl e \<Rightarrow> Inl e
           | Inr v \<Rightarrow> Inr (v AND 7))"

subsection \<open>Programs that use the class\<close>

text \<open>
  A client creates objects and calls their methods. The state of the process is the class
  attributes and the objects created so far, in the order of their creation; a call names
  its object by its position in that order. \<^verbatim>\<open>New\<close> is a constructor call, which adds an
  object when it returns and none when it raises; the other calls are the methods and the
  static method. A call that names an object not yet created is not a call a client can
  make, and is skipped.
\<close>

datatype call =
    New int string int
  | On nat int
  | Off nat
  | Write nat int
  | Read nat
  | Set_rgbleds_value int int

record process =
  cls :: RGBLED_class
  leds :: "RGBLED list"

definition process_initial :: process where
  "process_initial = \<lparr>cls = class_initial, leds = []\<rparr>"

fun exec :: "ip_dict \<Rightarrow> call \<Rightarrow> process \<Rightarrow> process" where
  "exec pl (New idx ip_name ofs) s =
     (case init idx ip_name ofs pl (cls s) of
        (Inl e, c1) \<Rightarrow> s\<lparr>cls := c1\<rparr>
      | (Inr led, c1) \<Rightarrow> \<lparr>cls = c1, leds = leds s @ [led]\<rparr>)"
| "exec pl (On h color) s =
     (if h < length (leds s)
      then case on color (leds s ! h) (cls s) of
             (r, self1, c1) \<Rightarrow> \<lparr>cls = c1, leds = (leds s)[h := self1]\<rparr>
      else s)"
| "exec pl (Off h) s =
     (if h < length (leds s)
      then case off (leds s ! h) (cls s) of
             (r, self1, c1) \<Rightarrow> \<lparr>cls = c1, leds = (leds s)[h := self1]\<rparr>
      else s)"
| "exec pl (Write h color) s =
     (if h < length (leds s)
      then case write_led color (leds s ! h) (cls s) of
             (r, self1, c1) \<Rightarrow> \<lparr>cls = c1, leds = (leds s)[h := self1]\<rparr>
      else s)"
| "exec pl (Read h) s = s"
| "exec pl (Set_rgbleds_value v ofs) s =
     (case set_rgbleds_value v ofs (cls s) of (r, c1) \<Rightarrow> s\<lparr>cls := c1\<rparr>)"

definition run :: "ip_dict \<Rightarrow> call list \<Rightarrow> process" where
  "run pl calls = foldl (\<lambda>s c. exec pl c s) process_initial calls"

text \<open>
  The smallest \<^verbatim>\<open>index\<close> among the objects created with \<^verbatim>\<open>offset == 0\<close>, and the
  initial \<^verbatim>\<open>float("inf")\<close> when there is none: the value the spec gives to the baseline.
\<close>

definition shared_indices :: "RGBLED list \<Rightarrow> int list" where
  "shared_indices ls = map index (filter (\<lambda>l. offset l = 0) ls)"

definition lowest_shared_index :: "RGBLED list \<Rightarrow> pynum" where
  "lowest_shared_index ls =
     (if shared_indices ls = [] then PInf else PInt (Min (set (shared_indices ls))))"

text \<open>\<^verbatim>\<open>x <= y\<close> on the values the baseline takes.\<close>

fun py_le :: "pynum \<Rightarrow> pynum \<Rightarrow> bool" where
  "py_le NInf y = True"
| "py_le x PInf = True"
| "py_le (PInt i) (PInt j) = (i \<le> j)"
| "py_le x y = False"

text \<open>An invalid-argument error is Python's \<^verbatim>\<open>ValueError\<close>.\<close>

fun invalid_argument :: "error + 'a \<Rightarrow> bool" where
  "invalid_argument (Inl (ValueError msg)) = True"
| "invalid_argument r = False"

text \<open>
  A table with the one block the constructor looks up by default, at the address the
  base overlay gives it.
\<close>

definition example_pl :: ip_dict where
  "example_pl = (\<lambda>name. if name = ''rgbleds_gpio'' then Some 1092681728 else None)"

text \<open>
  A client program for the examples: two objects that share the register, two with a
  register of their own, and a colour set on three of them.
\<close>

definition example_calls :: "call list" where
  "example_calls = [New 2 ''rgbleds_gpio'' 0, New 5 ''rgbleds_gpio'' 4, New 3 ''rgbleds_gpio'' 0,
     New 6 ''rgbleds_gpio'' 8, On 0 6, On 1 3, On 2 5]"

subsection \<open>What holds of every object and of the class attributes\<close>

definition led_ok :: "RGBLED \<Rightarrow> bool" where
  "led_ok l = (0 \<le> offset l \<and> offset l mod 4 = 0 \<and> 0 \<le> val l \<and> val l < 8)"

definition process_inv :: "process \<Rightarrow> bool" where
  "process_inv s =
     (list_all led_ok (leds s)
      \<and> (leds s = [] \<or> mmio (cls s) \<noteq> None)
      \<and> rgbleds_start_index (cls s) = lowest_shared_index (leds s))"

section \<open>Lemmas\<close>

subsection \<open>Bit fields\<close>

lemma seven_mask: "(7::int) = mask 3"
  by (simp add: mask_eq_exp_minus_1)

lemma color_and_7: "0 \<le> c \<Longrightarrow> c < 8 \<Longrightarrow> (c::int) AND 7 = c"
  unfolding seven_mask by (simp add: take_bit_eq_mask [symmetric] take_bit_int_eq_self)

lemma color_bit: "0 \<le> c \<Longrightarrow> c < 8 \<Longrightarrow> bit (c::int) k \<Longrightarrow> k < 3"
  by (metis color_and_7 seven_mask bit_and_iff bit_mask_iff)

lemma field_roundtrip:
  assumes "0 \<le> c" "c < 8"
  shows "drop_bit n ((v AND NOT (push_bit n 7)) OR push_bit n c) AND 7 = (c::int)"
proof -
  have "drop_bit n ((v AND NOT (push_bit n 7)) OR push_bit n c) AND 7 = c AND 7"
    unfolding seven_mask
    by (rule bit_eqI) (auto simp add: bit_simps)
  then show ?thesis using assms by (simp add: color_and_7)
qed

lemma field_clear:
  "drop_bit n (v AND NOT (push_bit n 7)) AND 7 = (0::int)"
  unfolding seven_mask
  by (rule bit_eqI) (auto simp add: bit_simps)

lemma field_frame:
  assumes "0 \<le> c" "c < 8" "n + 3 \<le> m \<or> m + 3 \<le> n"
  shows "drop_bit m ((v AND NOT (push_bit n 7)) OR push_bit n c) AND 7 = drop_bit m v AND (7::int)"
  unfolding seven_mask using assms
  by (intro bit_eqI) (auto simp add: bit_simps dest: color_bit)

lemma field_frame_clear:
  assumes "n + 3 \<le> m \<or> m + 3 \<le> n"
  shows "drop_bit m (v AND NOT (push_bit n 7)) AND 7 = drop_bit m v AND (7::int)"
  unfolding seven_mask using assms
  by (intro bit_eqI) (auto simp add: bit_simps)

lemma local_clear: "0 \<le> v \<Longrightarrow> v < 8 \<Longrightarrow> v AND NOT 7 = (0::int)"
  unfolding seven_mask
  by (rule bit_eqI) (auto simp add: bit_simps seven_mask dest: color_bit)

lemma local_set: "0 \<le> v \<Longrightarrow> v < 8 \<Longrightarrow> (v AND NOT 7) OR c = (c::int)"
  using local_clear [of v] by simp

subsection \<open>Register write\<close>

lemma set_rgbleds_value_start:
  "set_rgbleds_value v ofs c = (r, c1) \<Longrightarrow> rgbleds_start_index c1 = rgbleds_start_index c"
  by (auto simp add: set_rgbleds_value_def Let_def split: option.splits if_splits)

lemma set_rgbleds_value_mmio:
  "set_rgbleds_value v ofs c = (r, c1) \<Longrightarrow> mmio c \<noteq> None \<Longrightarrow> mmio c1 \<noteq> None"
  by (auto simp add: set_rgbleds_value_def Let_def split: option.splits if_splits)

lemma set_rgbleds_value_val:
  "rgbleds_val (snd (set_rgbleds_value v ofs c)) = (if ofs = 0 then v else rgbleds_val c)"
  by (simp add: set_rgbleds_value_def Let_def split: option.splits)

lemma set_rgbleds_value_ok:
  "0 \<le> ofs \<Longrightarrow> ofs mod 4 = 0 \<Longrightarrow> mmio c \<noteq> None \<Longrightarrow> fst (set_rgbleds_value v ofs c) = Inr ()"
  by (auto simp add: set_rgbleds_value_def Let_def split: option.splits)

subsection \<open>on and off\<close>

lemma on_keeps:
  assumes "on color self c = (r, self1, c1)"
  shows "index self1 = index self" "offset self1 = offset self"
    "rgbleds_start_index c1 = rgbleds_start_index c"
    "mmio c \<noteq> None \<Longrightarrow> mmio c1 \<noteq> None"
  using assms
  by (auto simp add: on_def Let_def split: if_splits sum.splits prod.splits
      dest: set_rgbleds_value_start set_rgbleds_value_mmio)

lemma on_val_ok:
  assumes "on color self c = (r, self1, c1)" "0 \<le> val self" "val self < 8"
  shows "0 \<le> val self1 \<and> val self1 < 8"
  using assms
  using local_set [of "val self" color]
  by (auto simp add: on_def Let_def split: if_splits sum.splits prod.splits)

lemma off_keeps:
  assumes "off self c = (r, self1, c1)"
  shows "index self1 = index self" "offset self1 = offset self"
    "rgbleds_start_index c1 = rgbleds_start_index c"
    "mmio c \<noteq> None \<Longrightarrow> mmio c1 \<noteq> None"
  using assms
  by (auto simp add: off_def Let_def split: if_splits sum.splits prod.splits
      dest: set_rgbleds_value_start set_rgbleds_value_mmio)

lemma off_val_ok:
  assumes "off self c = (r, self1, c1)" "0 \<le> val self" "val self < 8"
  shows "0 \<le> val self1 \<and> val self1 < 8"
  using assms
  using local_clear [of "val self"]
  by (auto simp add: off_def Let_def split: if_splits sum.splits prod.splits)


subsection \<open>The baseline\<close>

lemma shared_indices_snoc:
  "shared_indices (ls @ [l]) = shared_indices ls @ (if offset l = 0 then [index l] else [])"
  by (simp add: shared_indices_def)

lemma shared_indices_update:
  "h < length ls \<Longrightarrow> index l = index (ls ! h) \<Longrightarrow> offset l = offset (ls ! h)
    \<Longrightarrow> shared_indices (ls[h := l]) = shared_indices ls"
proof (induction ls arbitrary: h)
  case Nil
  then show ?case by simp
next
  case (Cons a ls)
  then show ?case by (cases h) (auto simp add: shared_indices_def)
qed

lemma lowest_shared_index_snoc:
  "lowest_shared_index (ls @ [l]) =
     (if offset l = 0 \<and> py_lt (index l) (lowest_shared_index ls)
      then PInt (index l) else lowest_shared_index ls)"
proof (cases "offset l = 0")
  case False
  then show ?thesis by (simp add: lowest_shared_index_def shared_indices_snoc)
next
  case True
  show ?thesis
  proof (cases "shared_indices ls = []")
    case True
    with \<open>offset l = 0\<close> show ?thesis
      by (simp add: lowest_shared_index_def shared_indices_snoc)
  next
    case False
    define m where "m = Min (set (shared_indices ls))"
    have "Min (insert (index l) (set (shared_indices ls))) = min (index l) m"
      using False unfolding m_def by (simp only: Min_insert List.finite_set set_empty simp_thms)
    then have "lowest_shared_index (ls @ [l]) = PInt (min (index l) m)"
      using \<open>offset l = 0\<close> by (simp add: lowest_shared_index_def shared_indices_snoc)
    moreover have "lowest_shared_index ls = PInt m"
      using False by (simp add: lowest_shared_index_def m_def)
    ultimately show ?thesis
      using \<open>offset l = 0\<close> by (simp add: min_def)
  qed
qed

lemma lowest_shared_index_update:
  "h < length ls \<Longrightarrow> index l = index (ls ! h) \<Longrightarrow> offset l = offset (ls ! h)
    \<Longrightarrow> lowest_shared_index (ls[h := l]) = lowest_shared_index ls"
  by (simp add: lowest_shared_index_def shared_indices_update)

lemma lowest_shared_index_le:
  assumes "h < length ls" "offset (ls ! h) = 0"
  shows "\<exists>b. lowest_shared_index ls = PInt b \<and> b \<le> index (ls ! h)"
proof -
  have "index (ls ! h) \<in> set (shared_indices ls)"
    using assms by (auto simp add: shared_indices_def intro!: image_eqI [where x = "ls ! h"])
  then show ?thesis
    by (auto simp add: lowest_shared_index_def)
qed

subsection \<open>The constructor\<close>

lemma init_Inr:
  assumes "init idx ip_name ofs pl c = (Inr led, c1)"
  shows "led = \<lparr>index = idx, offset = ofs, val = 0\<rparr>" "0 \<le> ofs" "ofs mod 4 = 0"
    "mmio c1 \<noteq> None"
    "rgbleds_start_index c1 =
       (if ofs = 0 \<and> py_lt idx (rgbleds_start_index c) then PInt idx else rgbleds_start_index c)"
    "rgbleds_val c1 = rgbleds_val c"
  using assms
  by (auto simp add: init_def Let_def split: option.splits if_splits)

lemma init_Inl:
  assumes "init idx ip_name ofs pl c = (Inl e, c1)"
  shows "rgbleds_start_index c1 = rgbleds_start_index c"
    "rgbleds_val c1 = rgbleds_val c"
    "mmio c \<noteq> None \<Longrightarrow> c1 = c"
  using assms
  by (auto simp add: init_def Let_def split: option.splits if_splits)

subsection \<open>Every call keeps the invariant\<close>

lemma led_ok_update:
  "list_all led_ok ls \<Longrightarrow> led_ok l \<Longrightarrow> list_all led_ok (ls[h := l])"
  by (auto simp add: list_all_iff dest: set_update_subset_insert [THEN subsetD])

lemma inv_method:
  assumes inv: "process_inv s" and h: "h < length (leds s)"
    and keeps: "index self1 = index (leds s ! h)" "offset self1 = offset (leds s ! h)"
      "rgbleds_start_index c1 = rgbleds_start_index (cls s)"
      "mmio (cls s) \<noteq> None \<Longrightarrow> mmio c1 \<noteq> None"
    and val: "0 \<le> val self1 \<and> val self1 < 8"
  shows "process_inv \<lparr>cls = c1, leds = (leds s)[h := self1]\<rparr>"
proof -
  have ok: "led_ok (leds s ! h)"
    using inv h by (simp add: process_inv_def list_all_length)
  then have "led_ok self1"
    using keeps val by (simp add: led_ok_def)
  moreover have "mmio (cls s) \<noteq> None"
    using inv h by (auto simp add: process_inv_def)
  ultimately show ?thesis
    using inv h keeps
    by (simp add: process_inv_def led_ok_update lowest_shared_index_update)
qed

lemma led_val_ok:
  "process_inv s \<Longrightarrow> h < length (leds s) \<Longrightarrow> 0 \<le> val (leds s ! h) \<and> val (leds s ! h) < 8"
  by (simp add: process_inv_def list_all_length led_ok_def)

lemma exec_inv: "process_inv s \<Longrightarrow> process_inv (exec pl c s)"
proof (cases c)
  case (New idx ip_name ofs)
  assume inv: "process_inv s"
  obtain r c1 where i: "init idx ip_name ofs pl (cls s) = (r, c1)"
    by (cases "init idx ip_name ofs pl (cls s)")
  show ?thesis
  proof (cases r)
    case (Inl e)
    then show ?thesis
      using inv i New init_Inl [of idx ip_name ofs pl "cls s" e c1]
      by (auto simp add: process_inv_def)
  next
    case (Inr led)
    then show ?thesis
      using inv i New init_Inr [of idx ip_name ofs pl "cls s" led c1]
      by (simp add: process_inv_def lowest_shared_index_snoc led_ok_def)
  qed
next
  case (On h color)
  assume inv: "process_inv s"
  show ?thesis
  proof (cases "h < length (leds s)")
    case True
    obtain r self1 c1 where o: "on color (leds s ! h) (cls s) = (r, self1, c1)"
      by (cases "on color (leds s ! h) (cls s)")
    show ?thesis
      using On True o inv_method [OF inv True on_keeps [OF o] on_val_ok [OF o]] led_val_ok [OF inv True]
      by simp
  next
    case False
    then show ?thesis using On inv by simp
  qed
next
  case (Off h)
  assume inv: "process_inv s"
  show ?thesis
  proof (cases "h < length (leds s)")
    case True
    obtain r self1 c1 where o: "off (leds s ! h) (cls s) = (r, self1, c1)"
      by (cases "off (leds s ! h) (cls s)")
    show ?thesis
      using Off True o inv_method [OF inv True off_keeps [OF o] off_val_ok [OF o]] led_val_ok [OF inv True]
      by simp
  next
    case False
    then show ?thesis using Off inv by simp
  qed
next
  case (Write h color)
  assume inv: "process_inv s"
  show ?thesis
  proof (cases "h < length (leds s)")
    case True
    obtain r self1 c1 where o: "on color (leds s ! h) (cls s) = (r, self1, c1)"
      by (cases "on color (leds s ! h) (cls s)")
    show ?thesis
      using Write True o inv_method [OF inv True on_keeps [OF o] on_val_ok [OF o]] led_val_ok [OF inv True]
      by (simp add: write_led_def)
  next
    case False
    then show ?thesis using Write inv by simp
  qed
next
  case (Read h)
  then show "process_inv s \<Longrightarrow> ?thesis" by simp
next
  case (Set_rgbleds_value v ofs)
  assume inv: "process_inv s"
  obtain r c1 where o: "set_rgbleds_value v ofs (cls s) = (r, c1)"
    by (cases "set_rgbleds_value v ofs (cls s)")
  show ?thesis
    using Set_rgbleds_value inv o set_rgbleds_value_start [OF o] set_rgbleds_value_mmio [OF o]
    by (auto simp add: process_inv_def)
qed

lemma run_snoc: "run pl (calls @ [c]) = exec pl c (run pl calls)"
  by (simp add: run_def)

lemma run_inv: "process_inv (run pl calls)"
proof (induction calls rule: rev_induct)
  case Nil
  then show ?case
    by (simp add: run_def process_initial_def class_initial_def process_inv_def
        lowest_shared_index_def shared_indices_def)
next
  case (snoc c calls)
  then show ?case by (simp add: run_snoc exec_inv)
qed


subsection \<open>What the methods compute\<close>

lemma shift_count_shared:
  "rgbleds_start_index c = PInt b \<Longrightarrow> shift_count self c = PInt ((index self - b) * 3)"
  by (simp add: shift_count_def)

lemma read_local: "0 < offset self \<Longrightarrow> read self c = Inr (val self)"
  by (simp add: read_def)

lemma read_shared:
  assumes "\<not> 0 < offset self" "rgbleds_start_index c = PInt b" "b \<le> index self"
  shows "read self c = Inr (drop_bit (nat ((index self - b) * 3)) (rgbleds_val c) AND 7)"
  using assms by (simp add: read_def shift_count_shared)

lemma on_local:
  assumes "0 < offset self" "offset self mod 4 = 0" "mmio c \<noteq> None"
    and "0 \<le> color" "color < 8" "0 \<le> val self" "val self < 8"
    and "on color self c = (r, self1, c1)"
  shows "r = Inr ()" "self1 = self\<lparr>val := color\<rparr>" "rgbleds_val c1 = rgbleds_val c"
    "rgbleds_start_index c1 = rgbleds_start_index c"
  using assms local_set [of "val self" color]
  by (auto simp add: on_def set_rgbleds_value_def Let_def split: option.splits)

lemma on_shared:
  assumes "\<not> 0 < offset self" "rgbleds_start_index c = PInt b" "b \<le> index self"
    and "mmio c \<noteq> None" "0 \<le> color" "color < 8"
    and "on color self c = (r, self1, c1)"
  shows "r = Inr ()" "self1 = self" "rgbleds_start_index c1 = PInt b"
    "rgbleds_val c1 =
       (rgbleds_val c AND NOT (push_bit (nat ((index self - b) * 3)) 7))
         OR push_bit (nat ((index self - b) * 3)) color"
  using assms
  by (auto simp add: on_def shift_count_shared set_rgbleds_value_def Let_def split: option.splits)

lemma off_local:
  assumes "0 < offset self" "offset self mod 4 = 0" "mmio c \<noteq> None"
    and "0 \<le> val self" "val self < 8"
    and "off self c = (r, self1, c1)"
  shows "r = Inr ()" "self1 = self\<lparr>val := 0\<rparr>" "rgbleds_val c1 = rgbleds_val c"
    "rgbleds_start_index c1 = rgbleds_start_index c"
  using assms local_clear [of "val self"]
  by (auto simp add: off_def set_rgbleds_value_def Let_def split: option.splits)

lemma off_shared:
  assumes "\<not> 0 < offset self" "rgbleds_start_index c = PInt b" "b \<le> index self"
    and "mmio c \<noteq> None"
    and "off self c = (r, self1, c1)"
  shows "r = Inr ()" "self1 = self" "rgbleds_start_index c1 = PInt b"
    "rgbleds_val c1 = rgbleds_val c AND NOT (push_bit (nat ((index self - b) * 3)) 7)"
  using assms
  by (auto simp add: off_def shift_count_shared set_rgbleds_value_def Let_def split: option.splits)

text \<open>What the invariant says of one object.\<close>

lemma object_facts:
  assumes "s = run pl calls" "h < length (leds s)"
  shows "0 \<le> offset (leds s ! h)" "offset (leds s ! h) mod 4 = 0"
    "0 \<le> val (leds s ! h)" "val (leds s ! h) < 8" "mmio (cls s) \<noteq> None"
    "rgbleds_start_index (cls s) = lowest_shared_index (leds s)"
  using assms run_inv [of pl calls]
  by (auto simp add: process_inv_def list_all_length led_ok_def)

lemma shared_object_facts:
  assumes "s = run pl calls" "h < length (leds s)" "offset (leds s ! h) = 0"
  shows "\<exists>b. rgbleds_start_index (cls s) = PInt b \<and> b \<le> index (leds s ! h)"
  using object_facts(6) [OF assms(1,2)] lowest_shared_index_le [OF assms(2,3)] by simp

lemma exec_On:
  "h < length (leds s) \<Longrightarrow> on color (leds s ! h) (cls s) = (r, self1, c1)
    \<Longrightarrow> exec pl (On h color) s = \<lparr>cls = c1, leds = (leds s)[h := self1]\<rparr>"
  by simp

lemma exec_Off:
  "h < length (leds s) \<Longrightarrow> off (leds s ! h) (cls s) = (r, self1, c1)
    \<Longrightarrow> exec pl (Off h) s = \<lparr>cls = c1, leds = (leds s)[h := self1]\<rparr>"
  by simp

lemma exec_Write: "exec pl (Write h color) s = exec pl (On h color) s"
  by (simp add: write_led_def)

subsection \<open>The example program\<close>

lemmas eval_defs = run_def process_initial_def class_initial_def init_def example_pl_def on_def
  off_def write_led_def read_def set_rgbleds_value_def shift_count_def MMIO_new_def MMIO_write_def
  RGBLEDS_XGPIO_OFFSET_def example_calls_def

lemma example_run:
  "run example_pl example_calls =
     \<lparr>cls = \<lparr>mmio = Some \<lparr>base_addr = 1092681728, span = 16,
                written = [(1092681728, 6), (1092681732, 3), (1092681728, 46)]\<rparr>,
              rgbleds_val = 46, rgbleds_start_index = PInt 2\<rparr>,
      leds = [\<lparr>index = 2, offset = 0, val = 0\<rparr>, \<lparr>index = 5, offset = 4, val = 3\<rparr>,
              \<lparr>index = 3, offset = 0, val = 0\<rparr>, \<lparr>index = 6, offset = 8, val = 0\<rparr>]\<rparr>"
  by (simp add: eval_defs)

subsection \<open>Objects with a register of their own\<close>

lemma set_rgbleds_value_val_eq:
  "set_rgbleds_value v ofs c = (r, c1) \<Longrightarrow> rgbleds_val c1 = (if ofs = 0 then v else rgbleds_val c)"
  using set_rgbleds_value_val [of v ofs c] by simp

lemma read_cong:
  "rgbleds_val c1 = rgbleds_val c \<Longrightarrow> rgbleds_start_index c1 = rgbleds_start_index c
    \<Longrightarrow> read self c1 = read self c"
  by (simp add: read_def shift_count_def)

lemma on_dedicated:
  assumes "0 < offset self" "on color self c = (r, self1, c1)"
  shows "rgbleds_val c1 = rgbleds_val c" "rgbleds_start_index c1 = rgbleds_start_index c"
  using assms
  by (auto simp add: on_def Let_def split: if_splits prod.splits
      dest: set_rgbleds_value_val_eq set_rgbleds_value_start)

lemma off_dedicated:
  assumes "0 < offset self" "off self c = (r, self1, c1)"
  shows "rgbleds_val c1 = rgbleds_val c" "rgbleds_start_index c1 = rgbleds_start_index c"
  using assms
  by (auto simp add: off_def Let_def split: if_splits prod.splits
      dest: set_rgbleds_value_val_eq set_rgbleds_value_start)

lemma exec_On_dedicated:
  assumes "s = run pl calls" "h < length (leds s)" "offset (leds s ! h) \<noteq> 0"
    and "s1 = exec pl (On h color) s"
  shows "rgbleds_val (cls s1) = rgbleds_val (cls s)"
    "rgbleds_start_index (cls s1) = rgbleds_start_index (cls s)"
    "h2 < length (leds s) \<Longrightarrow> h2 \<noteq> h \<Longrightarrow> leds s1 ! h2 = leds s ! h2"
proof -
  obtain r self1 c1 where o: "on color (leds s ! h) (cls s) = (r, self1, c1)"
    by (cases "on color (leds s ! h) (cls s)")
  have pos: "0 < offset (leds s ! h)"
    using object_facts(1) [OF assms(1,2)] assms(3) by simp
  have s1: "s1 = \<lparr>cls = c1, leds = (leds s)[h := self1]\<rparr>"
    using assms(2,4) o by simp
  show "rgbleds_val (cls s1) = rgbleds_val (cls s)"
    "rgbleds_start_index (cls s1) = rgbleds_start_index (cls s)"
    using on_dedicated [OF pos o] s1 by simp_all
  show "h2 < length (leds s) \<Longrightarrow> h2 \<noteq> h \<Longrightarrow> leds s1 ! h2 = leds s ! h2"
    using s1 by simp
qed

lemma exec_Off_dedicated:
  assumes "s = run pl calls" "h < length (leds s)" "offset (leds s ! h) \<noteq> 0"
    and "s1 = exec pl (Off h) s"
  shows "rgbleds_val (cls s1) = rgbleds_val (cls s)"
    "rgbleds_start_index (cls s1) = rgbleds_start_index (cls s)"
    "h2 < length (leds s) \<Longrightarrow> h2 \<noteq> h \<Longrightarrow> leds s1 ! h2 = leds s ! h2"
proof -
  obtain r self1 c1 where o: "off (leds s ! h) (cls s) = (r, self1, c1)"
    by (cases "off (leds s ! h) (cls s)")
  have pos: "0 < offset (leds s ! h)"
    using object_facts(1) [OF assms(1,2)] assms(3) by simp
  have s1: "s1 = \<lparr>cls = c1, leds = (leds s)[h := self1]\<rparr>"
    using assms(2,4) o by simp
  show "rgbleds_val (cls s1) = rgbleds_val (cls s)"
    "rgbleds_start_index (cls s1) = rgbleds_start_index (cls s)"
    using off_dedicated [OF pos o] s1 by simp_all
  show "h2 < length (leds s) \<Longrightarrow> h2 \<noteq> h \<Longrightarrow> leds s1 ! h2 = leds s ! h2"
    using s1 by simp
qed

subsection \<open>The baseline never rises\<close>

lemma py_le_refl: "py_le x x"
  by (cases x) simp_all

lemma py_le_trans: "py_le x y \<Longrightarrow> py_le y z \<Longrightarrow> py_le x z"
  by (cases x; cases y; cases z) simp_all

lemma exec_start_le:
  "py_le (rgbleds_start_index (cls (exec pl c s))) (rgbleds_start_index (cls s))"
proof (cases c)
  case (New idx ip_name ofs)
  have "py_le (rgbleds_start_index (snd (init idx ip_name ofs pl k))) (rgbleds_start_index k)" for k
    by (cases "rgbleds_start_index k")
      (auto simp add: init_def Let_def py_le_refl split: option.splits)
  from this [of "cls s"] show ?thesis
    using New by (auto split: prod.splits sum.splits)
next
  case (On h color)
  then show ?thesis
    by (auto simp add: py_le_refl split: prod.splits dest: on_keeps(3))
next
  case (Off h)
  then show ?thesis
    by (auto simp add: py_le_refl split: prod.splits dest: off_keeps(3))
next
  case (Write h color)
  then show ?thesis
    by (auto simp add: py_le_refl write_led_def split: prod.splits dest: on_keeps(3))
next
  case (Read h)
  then show ?thesis by (simp add: py_le_refl)
next
  case (Set_rgbleds_value v ofs)
  then show ?thesis
    by (auto simp add: py_le_refl split: prod.splits dest: set_rgbleds_value_start)
qed

lemma run_append_start_le:
  "py_le (rgbleds_start_index (cls (run pl (calls @ later)))) (rgbleds_start_index (cls (run pl calls)))"
proof (induction later rule: rev_induct)
  case Nil
  then show ?case by (simp add: py_le_refl)
next
  case (snoc c later)
  have "run pl (calls @ later @ [c]) = exec pl c (run pl (calls @ later))"
    using run_snoc [of pl "calls @ later" c] by simp
  then show ?case
    using snoc exec_start_le [of pl c "run pl (calls @ later)"] py_le_trans by auto
qed

subsection \<open>The constructor on a bound accessor and on an invalid offset\<close>

lemma init_bound:
  assumes "mmio c \<noteq> None" "0 \<le> ofs" "ofs mod 4 = 0"
  shows "init idx ip_name ofs pl c =
     (Inr \<lparr>index = idx, offset = ofs, val = 0\<rparr>,
      if ofs = 0 \<and> py_lt idx (rgbleds_start_index c)
      then c\<lparr>rgbleds_start_index := PInt idx\<rparr> else c)"
  using assms by (auto simp add: init_def Let_def)

lemma init_invalid_offset:
  assumes "ofs < 0 \<or> ofs mod 4 \<noteq> 0"
  shows "mmio c \<noteq> None \<Longrightarrow>
      init idx ip_name ofs pl c =
        (Inl (ValueError (if ofs < 0 then ''Offset cannot be a negative value.''
                          else ''Offset must be a multiple of 4.'')), c)"
    and "mmio c = None \<Longrightarrow> pl ip_name = Some base \<Longrightarrow>
      init idx ip_name ofs pl c =
        (Inl (ValueError (if ofs < 0 then ''Offset cannot be a negative value.''
                          else ''Offset must be a multiple of 4.'')),
         c\<lparr>mmio := Some (MMIO_new base 16)\<rparr>)"
    and "mmio c = None \<Longrightarrow> pl ip_name = None \<Longrightarrow>
      init idx ip_name ofs pl c = (Inl (KeyError ip_name), c)"
  using assms by (auto simp add: init_def Let_def)

subsection \<open>Objects that share the register\<close>

lemma field_distance:
  assumes "b \<le> i1" "b \<le> i2" "i1 \<noteq> (i2::int)"
  shows "nat ((i1 - b) * 3) + 3 \<le> nat ((i2 - b) * 3) \<or> nat ((i2 - b) * 3) + 3 \<le> nat ((i1 - b) * 3)"
proof -
  obtain k1 where k1: "i1 - b = int k1"
    using assms(1) zero_le_imp_eq_int [of "i1 - b"] by auto
  obtain k2 where k2: "i2 - b = int k2"
    using assms(2) zero_le_imp_eq_int [of "i2 - b"] by auto
  have "k1 \<noteq> k2" using k1 k2 assms(3) by auto
  moreover have "nat ((i1 - b) * 3) = k1 * 3" "nat ((i2 - b) * 3) = k2 * 3"
    unfolding k1 k2 by (simp_all add: nat_mult_distrib)
  ultimately show ?thesis by (simp only:) arith
qed

lemma exec_On_shared_frame:
  assumes "s = run pl calls" "h1 < length (leds s)" "h2 < length (leds s)"
    and "offset (leds s ! h1) = 0" "offset (leds s ! h2) = 0"
    and "index (leds s ! h1) \<noteq> index (leds s ! h2)" "0 \<le> color" "color < 8"
    and "s1 = exec pl (On h1 color) s"
  shows "read (leds s1 ! h2) (cls s1) = read (leds s ! h2) (cls s)"
proof -
  obtain r self1 c1 where o: "on color (leds s ! h1) (cls s) = (r, self1, c1)"
    by (cases "on color (leds s ! h1) (cls s)")
  from shared_object_facts [OF assms(1,2,4)]
  obtain b where b: "rgbleds_start_index (cls s) = PInt b" "b \<le> index (leds s ! h1)" by blast
  from shared_object_facts [OF assms(1,3,5)] b(1)
  have b2: "b \<le> index (leds s ! h2)" by simp
  define n1 where "n1 = nat ((index (leds s ! h1) - b) * 3)"
  define n2 where "n2 = nat ((index (leds s ! h2) - b) * 3)"
  have apart: "n1 + 3 \<le> n2 \<or> n2 + 3 \<le> n1"
    unfolding n1_def n2_def using field_distance [OF b(2) b2 assms(6)] .
  have np1: "\<not> 0 < offset (leds s ! h1)" and np2: "\<not> 0 < offset (leds s ! h2)"
    using assms(4,5) by simp_all
  note os = on_shared [OF np1 b object_facts(5) [OF assms(1,2)] assms(7,8) o, folded n1_def]
  have s1: "cls s1 = c1" "leds s1 ! h2 = leds s ! h2"
    using assms(2,3,6,9) o os(2) by auto
  have "read (leds s ! h2) c1 = Inr (drop_bit n2 (rgbleds_val c1) AND 7)"
    using read_shared [OF np2 os(3) b2] by (simp add: n2_def)
  also have "\<dots> = Inr (drop_bit n2 (rgbleds_val (cls s)) AND 7)"
    by (simp only: os(4) field_frame [OF assms(7,8) apart])
  also have "\<dots> = read (leds s ! h2) (cls s)"
    using read_shared [OF np2 b(1) b2] by (simp add: n2_def)
  finally show ?thesis using s1 by simp
qed

lemma exec_Off_shared_frame:
  assumes "s = run pl calls" "h1 < length (leds s)" "h2 < length (leds s)"
    and "offset (leds s ! h1) = 0" "offset (leds s ! h2) = 0"
    and "index (leds s ! h1) \<noteq> index (leds s ! h2)"
    and "s1 = exec pl (Off h1) s"
  shows "read (leds s1 ! h2) (cls s1) = read (leds s ! h2) (cls s)"
proof -
  obtain r self1 c1 where o: "off (leds s ! h1) (cls s) = (r, self1, c1)"
    by (cases "off (leds s ! h1) (cls s)")
  from shared_object_facts [OF assms(1,2,4)]
  obtain b where b: "rgbleds_start_index (cls s) = PInt b" "b \<le> index (leds s ! h1)" by blast
  from shared_object_facts [OF assms(1,3,5)] b(1)
  have b2: "b \<le> index (leds s ! h2)" by simp
  define n1 where "n1 = nat ((index (leds s ! h1) - b) * 3)"
  define n2 where "n2 = nat ((index (leds s ! h2) - b) * 3)"
  have apart: "n1 + 3 \<le> n2 \<or> n2 + 3 \<le> n1"
    unfolding n1_def n2_def using field_distance [OF b(2) b2 assms(6)] .
  have np1: "\<not> 0 < offset (leds s ! h1)" and np2: "\<not> 0 < offset (leds s ! h2)"
    using assms(4,5) by simp_all
  note os = off_shared [OF np1 b object_facts(5) [OF assms(1,2)] o, folded n1_def]
  have s1: "cls s1 = c1" "leds s1 ! h2 = leds s ! h2"
    using assms(2,3,6,7) o os(2) by auto
  have "read (leds s ! h2) c1 = Inr (drop_bit n2 (rgbleds_val c1) AND 7)"
    using read_shared [OF np2 os(3) b2] by (simp add: n2_def)
  also have "\<dots> = Inr (drop_bit n2 (rgbleds_val (cls s)) AND 7)"
    by (simp only: os(4) field_frame_clear [OF apart])
  also have "\<dots> = read (leds s ! h2) (cls s)"
    using read_shared [OF np2 b(1) b2] by (simp add: n2_def)
  finally show ?thesis using s1 by simp
qed

lemma red_and_green:
  assumes "pl ip_name = Some base"
    and "t = run pl [New 0 ip_name 0, New 1 ip_name 0, On 0 RGB_RED, On 1 RGB_GREEN]"
  shows "read (leds t ! 0) (cls t) = Inr 4" "read (leds t ! 1) (cls t) = Inr 2"
    "rgbleds_val (cls t) = 4 OR push_bit 3 2"
  using assms
  by (simp_all add: run_def process_initial_def class_initial_def init_def on_def read_def
      set_rgbleds_value_def shift_count_def RGB_RED_def RGB_GREEN_def)

section \<open>The claims\<close>

text \<open>
  C3. In every state a client can reach, for every object \<open>h\<close> created so far, whatever
  its offset, and every \<open>color\<close> from 0 to 7: \<^verbatim>\<open>on(color)\<close> returns, and a \<^verbatim>\<open>read()\<close>
  on the same object right after it returns \<open>color\<close>.
\<close>

theorem on_then_read_returns_color:
  assumes "s = run pl calls" "h < length (leds s)" "0 \<le> color" "color < 8"
    and "s1 = exec pl (On h color) s"
  shows "fst (on color (leds s ! h) (cls s)) = Inr () \<and> read (leds s1 ! h) (cls s1) = Inr color"
proof -
  obtain r self1 c1 where o: "on color (leds s ! h) (cls s) = (r, self1, c1)"
    by (cases "on color (leds s ! h) (cls s)")
  note facts = object_facts [OF assms(1,2)]
  have s1: "leds s1 ! h = self1" "cls s1 = c1"
    using assms(2,5) o by simp_all
  show ?thesis
  proof (cases "0 < offset (leds s ! h)")
    case True
    from on_local [OF True facts(2,5) assms(3,4) facts(3,4) o]
    show ?thesis using True o s1 by (simp add: read_local)
  next
    case False
    then have "offset (leds s ! h) = 0" using facts(1) by simp
    from shared_object_facts [OF assms(1,2) this]
    obtain b where b: "rgbleds_start_index (cls s) = PInt b" "b \<le> index (leds s ! h)" by blast
    define n where "n = nat ((index (leds s ! h) - b) * 3)"
    note os = on_shared [OF False b facts(5) assms(3,4) o, folded n_def]
    have "read self1 c1 = Inr (drop_bit n (rgbleds_val c1) AND 7)"
      using read_shared [of self1 c1 b] False os(2,3) b(2) by (simp add: n_def)
    also have "\<dots> = Inr color"
      by (simp only: os(4) field_roundtrip [OF assms(3,4)])
    finally show ?thesis using o os(1) s1 by simp
  qed
qed

text \<open>The example program, then \<^verbatim>\<open>on\<close> and \<^verbatim>\<open>read\<close> on a shared and on a dedicated object.\<close>

theorem on_then_read_returns_color_witness:
  "(0::nat) < length (leds (run example_pl example_calls))
   \<and> (1::nat) < length (leds (run example_pl example_calls))
   \<and> read (leds (exec example_pl (On 0 5) (run example_pl example_calls)) ! 0)
        (cls (exec example_pl (On 0 5) (run example_pl example_calls))) = Inr 5
   \<and> read (leds (exec example_pl (On 1 7) (run example_pl example_calls)) ! 1)
        (cls (exec example_pl (On 1 7) (run example_pl example_calls))) = Inr 7"
  using on_then_read_returns_color [of "run example_pl example_calls" example_pl example_calls 0 5
      "exec example_pl (On 0 5) (run example_pl example_calls)"]
    on_then_read_returns_color [of "run example_pl example_calls" example_pl example_calls 1 7
      "exec example_pl (On 1 7) (run example_pl example_calls)"]
  by (simp add: example_run)

text \<open>
  C7. For every integer \<open>color\<close> outside 0 to 7, \<^verbatim>\<open>on(color)\<close> raises \<^verbatim>\<open>ValueError\<close>, on
  every object and in every state of the class attributes, and so does \<^verbatim>\<open>write(color)\<close>.
\<close>

theorem on_rejects_color_out_of_range:
  assumes "\<not> (0 \<le> color \<and> color < 8)"
  shows "invalid_argument (fst (on color self c)) \<and> invalid_argument (fst (write_led color self c))"
  using assms by (simp add: on_def write_led_def)

text \<open>The colours 8 and -1, on an object that shares the register and on one that does not.\<close>

theorem on_rejects_color_out_of_range_witness:
  "invalid_argument (fst (on 8 \<lparr>index = 0, offset = 0, val = 0\<rparr> class_initial))
   \<and> invalid_argument (fst (write_led (- 1) \<lparr>index = 1, offset = 4, val = 0\<rparr> class_initial))"
  using on_rejects_color_out_of_range [of 8 "\<lparr>index = 0, offset = 0, val = 0\<rparr>" class_initial]
    on_rejects_color_out_of_range [of "- 1" "\<lparr>index = 1, offset = 4, val = 0\<rparr>" class_initial]
  by simp

text \<open>
  C9. In every state a client can reach, for every object \<open>h\<close> created so far, whatever
  its offset and whatever colour it holds: \<^verbatim>\<open>off()\<close> returns, and a \<^verbatim>\<open>read()\<close> on the same
  object right after it returns 0, which is \<^verbatim>\<open>RGB_CLEAR\<close>.
\<close>

theorem off_then_read_returns_clear:
  assumes "s = run pl calls" "h < length (leds s)"
    and "s1 = exec pl (Off h) s"
  shows "fst (off (leds s ! h) (cls s)) = Inr () \<and> read (leds s1 ! h) (cls s1) = Inr RGB_CLEAR"
proof -
  obtain r self1 c1 where o: "off (leds s ! h) (cls s) = (r, self1, c1)"
    by (cases "off (leds s ! h) (cls s)")
  note facts = object_facts [OF assms(1,2)]
  have s1: "leds s1 ! h = self1" "cls s1 = c1"
    using assms(2,3) o by simp_all
  show ?thesis
  proof (cases "0 < offset (leds s ! h)")
    case True
    from off_local [OF True facts(2,5) facts(3,4) o]
    show ?thesis using True o s1 by (simp add: read_local RGB_CLEAR_def)
  next
    case False
    then have "offset (leds s ! h) = 0" using facts(1) by simp
    from shared_object_facts [OF assms(1,2) this]
    obtain b where b: "rgbleds_start_index (cls s) = PInt b" "b \<le> index (leds s ! h)" by blast
    define n where "n = nat ((index (leds s ! h) - b) * 3)"
    note os = off_shared [OF False b facts(5) o, folded n_def]
    have "read self1 c1 = Inr (drop_bit n (rgbleds_val c1) AND 7)"
      using read_shared [of self1 c1 b] False os(2,3) b(2) by (simp add: n_def)
    also have "\<dots> = Inr 0"
      by (simp only: os(4) field_clear)
    finally show ?thesis using o os(1) s1 by (simp add: RGB_CLEAR_def)
  qed
qed

text \<open>
  The example program leaves colour 6 on object 0 and colour 3 on object 1; after \<^verbatim>\<open>off\<close>
  each reads 0.
\<close>

theorem off_then_read_returns_clear_witness:
  "(0::nat) < length (leds (run example_pl example_calls))
   \<and> (1::nat) < length (leds (run example_pl example_calls))
   \<and> read (leds (run example_pl example_calls) ! 0) (cls (run example_pl example_calls)) = Inr 6
   \<and> read (leds (run example_pl example_calls) ! 1) (cls (run example_pl example_calls)) = Inr 3
   \<and> read (leds (exec example_pl (Off 0) (run example_pl example_calls)) ! 0)
        (cls (exec example_pl (Off 0) (run example_pl example_calls))) = Inr 0
   \<and> read (leds (exec example_pl (Off 1) (run example_pl example_calls)) ! 1)
        (cls (exec example_pl (Off 1) (run example_pl example_calls))) = Inr 0"
  using off_then_read_returns_clear [of "run example_pl example_calls" example_pl example_calls 0
      "exec example_pl (Off 0) (run example_pl example_calls)"]
    off_then_read_returns_clear [of "run example_pl example_calls" example_pl example_calls 1
      "exec example_pl (Off 1) (run example_pl example_calls)"]
  by (simp add: example_run read_def shift_count_def RGB_CLEAR_def)

text \<open>
  C5. The register write \<^verbatim>\<open>_set_rgbleds_value(value, offset)\<close> leaves \<^verbatim>\<open>_rgbleds_val\<close> equal
  to \<open>value\<close> when \<open>offset\<close> is 0 and as it was for every other offset. In every state
  a client can reach, \<^verbatim>\<open>on\<close>, \<^verbatim>\<open>off\<close> and \<^verbatim>\<open>write\<close> on an object \<open>h\<close> created with a
  nonzero offset leave \<^verbatim>\<open>_rgbleds_val\<close> as it was, and leave what \<^verbatim>\<open>read()\<close> returns on
  every other object \<open>h2\<close> as it was, so that two objects with nonzero offsets do not
  affect each other.
\<close>

theorem dedicated_offset_leaves_shared_value:
  assumes "s = run pl calls" "h < length (leds s)" "offset (leds s ! h) \<noteq> 0"
  shows "rgbleds_val (snd (set_rgbleds_value v ofs c)) = (if ofs = 0 then v else rgbleds_val c)
    \<and> rgbleds_val (cls (exec pl (On h color) s)) = rgbleds_val (cls s)
    \<and> rgbleds_val (cls (exec pl (Off h) s)) = rgbleds_val (cls s)
    \<and> rgbleds_val (cls (exec pl (Write h color) s)) = rgbleds_val (cls s)
    \<and> (h2 < length (leds s) \<and> h2 \<noteq> h \<longrightarrow>
         read (leds (exec pl (On h color) s) ! h2) (cls (exec pl (On h color) s))
           = read (leds s ! h2) (cls s)
         \<and> read (leds (exec pl (Off h) s) ! h2) (cls (exec pl (Off h) s))
           = read (leds s ! h2) (cls s)
         \<and> read (leds (exec pl (Write h color) s) ! h2) (cls (exec pl (Write h color) s))
           = read (leds s ! h2) (cls s))"
proof -
  note on_facts = exec_On_dedicated [OF assms refl, where color = color]
  note off_facts = exec_Off_dedicated [OF assms refl]
  have "read (leds (exec pl (On h color) s) ! h2) (cls (exec pl (On h color) s))
      = read (leds s ! h2) (cls s)" if "h2 < length (leds s)" "h2 \<noteq> h"
    using on_facts(3) [OF that] read_cong [OF on_facts(1,2)] by (simp del: exec.simps)
  moreover have "read (leds (exec pl (Off h) s) ! h2) (cls (exec pl (Off h) s))
      = read (leds s ! h2) (cls s)" if "h2 < length (leds s)" "h2 \<noteq> h"
    using off_facts(3) [OF that] read_cong [OF off_facts(1,2)] by (simp del: exec.simps)
  ultimately show ?thesis
    using on_facts(1) off_facts(1)
    by (simp add: set_rgbleds_value_val exec_Write del: exec.simps)
qed

text \<open>
  After the example program the shared value is 46. Object 1 has offset 4 and object 3
  has offset 8: setting colour 7 on object 1 leaves the shared value and the colour 0
  of object 3.
\<close>

theorem dedicated_offset_leaves_shared_value_witness:
  "(1::nat) < length (leds (run example_pl example_calls))
   \<and> offset (leds (run example_pl example_calls) ! 1) \<noteq> 0
   \<and> rgbleds_val (snd (set_rgbleds_value 9 0 class_initial)) = 9
   \<and> rgbleds_val (snd (set_rgbleds_value 9 4 class_initial)) = 0
   \<and> rgbleds_val (cls (exec example_pl (On 1 7) (run example_pl example_calls))) = 46
   \<and> rgbleds_val (cls (exec example_pl (Off 1) (run example_pl example_calls))) = 46
   \<and> rgbleds_val (cls (exec example_pl (Write 1 7) (run example_pl example_calls))) = 46
   \<and> read (leds (exec example_pl (On 1 7) (run example_pl example_calls)) ! 3)
        (cls (exec example_pl (On 1 7) (run example_pl example_calls))) = Inr 0
   \<and> read (leds (exec example_pl (On 1 7) (run example_pl example_calls)) ! 1)
        (cls (exec example_pl (On 1 7) (run example_pl example_calls))) = Inr 7"
  using dedicated_offset_leaves_shared_value [of "run example_pl example_calls" example_pl
      example_calls 1 9 0 class_initial 7 3]
    dedicated_offset_leaves_shared_value [of "run example_pl example_calls" example_pl
      example_calls 1 9 4 class_initial 7 3]
  by (simp add: example_run eval_defs)

text \<open>
  C6. After every sequence of calls, \<^verbatim>\<open>_rgbleds_start_index\<close> is the smallest index
  among the objects created so far with offset 0, and its initial value when there is
  none; and after any further calls it is less than or equal to what it was.
\<close>

theorem baseline_is_lowest_shared_index:
  "rgbleds_start_index (cls (run pl calls)) = lowest_shared_index (leds (run pl calls))
   \<and> py_le (rgbleds_start_index (cls (run pl (calls @ later))))
        (rgbleds_start_index (cls (run pl calls)))"
  using run_inv [of pl calls] run_append_start_le [of pl calls later]
  by (simp add: process_inv_def)

text \<open>
  The example program creates shared objects with the indices 2 and 3; two more with the
  indices 1 and 4 lower the baseline from 2 to 1.
\<close>

theorem baseline_is_lowest_shared_index_witness:
  "rgbleds_start_index (cls (run example_pl example_calls)) = PInt 2
   \<and> lowest_shared_index (leds (run example_pl example_calls)) = PInt 2
   \<and> rgbleds_start_index (cls (run example_pl (example_calls @ [New 1 ''rgbleds_gpio'' 0, New 4 ''rgbleds_gpio'' 0]))) = PInt 1"
  using baseline_is_lowest_shared_index [of example_pl example_calls "[New 1 ''rgbleds_gpio'' 0, New 4 ''rgbleds_gpio'' 0]"]
  by (simp add: eval_defs lowest_shared_index_def shared_indices_def)

text \<open>
  C10. After every sequence of calls, every object \<open>h\<close> created with offset 0 has an
  index that is not below \<^verbatim>\<open>_rgbleds_start_index\<close>, which is an integer by then, so the
  count of the shifts in \<^verbatim>\<open>on\<close>, \<^verbatim>\<open>off\<close> and \<^verbatim>\<open>read\<close> is a nonnegative multiple of 3.
\<close>

theorem shared_index_not_below_baseline:
  assumes "s = run pl calls" "h < length (leds s)" "offset (leds s ! h) = 0"
  shows "\<exists>b. rgbleds_start_index (cls s) = PInt b \<and> b \<le> index (leds s ! h)
    \<and> shift_count (leds s ! h) (cls s) = PInt ((index (leds s ! h) - b) * 3)
    \<and> 0 \<le> (index (leds s ! h) - b) * 3 \<and> 3 dvd (index (leds s ! h) - b) * 3"
proof -
  from shared_object_facts [OF assms]
  obtain b where b: "rgbleds_start_index (cls s) = PInt b" "b \<le> index (leds s ! h)" by blast
  then show ?thesis by (simp add: shift_count_shared)
qed

text \<open>Object 2 of the example program has index 3 over the baseline 2: the count is 3.\<close>

theorem shared_index_not_below_baseline_witness:
  "(2::nat) < length (leds (run example_pl example_calls))
   \<and> offset (leds (run example_pl example_calls) ! 2) = 0
   \<and> rgbleds_start_index (cls (run example_pl example_calls)) = PInt 2
   \<and> index (leds (run example_pl example_calls) ! 2) = 3
   \<and> shift_count (leds (run example_pl example_calls) ! 2) (cls (run example_pl example_calls)) = PInt 3"
  using shared_index_not_below_baseline [of "run example_pl example_calls" example_pl example_calls 2]
  by (simp add: example_run shift_count_def)

text \<open>
  C4. In every state a client can reach, for two objects \<open>h1\<close> and \<open>h2\<close> created with
  offset 0 and different indices, setting a colour on \<open>h1\<close> with \<^verbatim>\<open>on\<close>, or clearing
  it with \<^verbatim>\<open>off\<close>, leaves what \<^verbatim>\<open>read()\<close> returns on \<open>h2\<close> as it was. In particular,
  in a fresh process where the name of the block resolves, create an object with index 0
  and one with index 1, set the first to \<^verbatim>\<open>RGB_RED\<close> and the second to \<^verbatim>\<open>RGB_GREEN\<close>:
  the first reads 4, the second reads 2 and \<^verbatim>\<open>_rgbleds_val\<close> is \<^verbatim>\<open>4 | (2 << 3)\<close>.
\<close>

theorem shared_fields_do_not_interfere:
  "(s = run pl calls \<and> h1 < length (leds s) \<and> h2 < length (leds s)
      \<and> offset (leds s ! h1) = 0 \<and> offset (leds s ! h2) = 0
      \<and> index (leds s ! h1) \<noteq> index (leds s ! h2) \<and> 0 \<le> color \<and> color < 8
    \<longrightarrow> read (leds (exec pl (On h1 color) s) ! h2) (cls (exec pl (On h1 color) s))
          = read (leds s ! h2) (cls s)
        \<and> read (leds (exec pl (Off h1) s) ! h2) (cls (exec pl (Off h1) s))
          = read (leds s ! h2) (cls s))
   \<and> (pl ip_name = Some base
        \<and> t = run pl [New 0 ip_name 0, New 1 ip_name 0, On 0 RGB_RED, On 1 RGB_GREEN]
    \<longrightarrow> read (leds t ! 0) (cls t) = Inr 4 \<and> read (leds t ! 1) (cls t) = Inr 2
        \<and> rgbleds_val (cls t) = 4 OR push_bit 3 2)"
proof (intro conjI impI; elim conjE)
  assume "s = run pl calls" "h1 < length (leds s)" "h2 < length (leds s)"
    "offset (leds s ! h1) = 0" "offset (leds s ! h2) = 0"
    "index (leds s ! h1) \<noteq> index (leds s ! h2)" "0 \<le> color" "color < 8"
  then show "read (leds (exec pl (On h1 color) s) ! h2) (cls (exec pl (On h1 color) s))
      = read (leds s ! h2) (cls s)"
    by (rule exec_On_shared_frame) (rule refl)
next
  assume "s = run pl calls" "h1 < length (leds s)" "h2 < length (leds s)"
    "offset (leds s ! h1) = 0" "offset (leds s ! h2) = 0"
    "index (leds s ! h1) \<noteq> index (leds s ! h2)"
  then show "read (leds (exec pl (Off h1) s) ! h2) (cls (exec pl (Off h1) s))
      = read (leds s ! h2) (cls s)"
    by (rule exec_Off_shared_frame) (rule refl)
next
  assume "pl ip_name = Some base"
    "t = run pl [New 0 ip_name 0, New 1 ip_name 0, On 0 RGB_RED, On 1 RGB_GREEN]"
  then show "read (leds t ! 0) (cls t) = Inr 4" by (rule red_and_green(1))
next
  assume "pl ip_name = Some base"
    "t = run pl [New 0 ip_name 0, New 1 ip_name 0, On 0 RGB_RED, On 1 RGB_GREEN]"
  then show "read (leds t ! 1) (cls t) = Inr 2" by (rule red_and_green(2))
next
  assume "pl ip_name = Some base"
    "t = run pl [New 0 ip_name 0, New 1 ip_name 0, On 0 RGB_RED, On 1 RGB_GREEN]"
  then show "rgbleds_val (cls t) = 4 OR push_bit 3 2" by (rule red_and_green(3))
qed

text \<open>
  Objects 0 and 2 of the example program share the register with the indices 2 and 3;
  object 2 reads 5 before and after a colour is set on object 0 or object 0 is cleared.
  The register of the red and green objects holds 20.
\<close>

theorem shared_fields_do_not_interfere_witness:
  "(0::nat) < length (leds (run example_pl example_calls))
   \<and> (2::nat) < length (leds (run example_pl example_calls))
   \<and> offset (leds (run example_pl example_calls) ! 0) = 0
   \<and> offset (leds (run example_pl example_calls) ! 2) = 0
   \<and> index (leds (run example_pl example_calls) ! 0) \<noteq> index (leds (run example_pl example_calls) ! 2)
   \<and> read (leds (run example_pl example_calls) ! 2) (cls (run example_pl example_calls)) = Inr 5
   \<and> read (leds (exec example_pl (On 0 1) (run example_pl example_calls)) ! 2)
        (cls (exec example_pl (On 0 1) (run example_pl example_calls))) = Inr 5
   \<and> read (leds (exec example_pl (Off 0) (run example_pl example_calls)) ! 2)
        (cls (exec example_pl (Off 0) (run example_pl example_calls))) = Inr 5
   \<and> example_pl ''rgbleds_gpio'' = Some 1092681728
   \<and> rgbleds_val (cls (run example_pl [New 0 ''rgbleds_gpio'' 0, New 1 ''rgbleds_gpio'' 0,
        On 0 RGB_RED, On 1 RGB_GREEN])) = 20"
proof -
  have name: "example_pl ''rgbleds_gpio'' = Some 1092681728"
    by (simp add: example_pl_def)
  have before: "read (leds (run example_pl example_calls) ! 2) (cls (run example_pl example_calls))
      = Inr 5"
    by (simp add: example_run read_def shift_count_def)
  show ?thesis
    using shared_fields_do_not_interfere [of "run example_pl example_calls" example_pl
        example_calls 0 2 1 "''rgbleds_gpio''" 1092681728
        "run example_pl [New 0 ''rgbleds_gpio'' 0, New 1 ''rgbleds_gpio'' 0,
           On 0 RGB_RED, On 1 RGB_GREEN]"]
      name before
    by (simp add: example_run del: exec.simps)
qed

text \<open>
  C2. In a state a client can reach where the baseline is \<open>b\<close>, let an object \<open>h\<close> with
  offset 0 set a colour, and then let an object with a lower index \<open>j < b\<close> and offset 0
  be created. Then \<open>j\<close> is the new baseline, the constructor leaves \<^verbatim>\<open>_rgbleds_val\<close> as
  it was, so that the colour of \<open>h\<close> still sits at the bits of the old count
  \<open>(index - b) * 3\<close>, and the count that \<^verbatim>\<open>read\<close>, \<^verbatim>\<open>on\<close> and \<^verbatim>\<open>off\<close> of \<open>h\<close> use from
  then on is the larger \<open>(index - j) * 3\<close>.
\<close>

theorem lower_index_moves_baseline_only:
  assumes "s = run pl calls" "h < length (leds s)" "offset (leds s ! h) = 0"
    and "rgbleds_start_index (cls s) = PInt b"
    and "0 \<le> color" "color < 8" "s1 = exec pl (On h color) s"
    and "j < b" "s2 = exec pl (New j ip_name 0) s1"
  shows "rgbleds_start_index (cls s2) = PInt j
    \<and> rgbleds_val (cls s2) = rgbleds_val (cls s1)
    \<and> leds s2 = leds s1 @ [\<lparr>index = j, offset = 0, val = 0\<rparr>]
    \<and> drop_bit (nat ((index (leds s ! h) - b) * 3)) (rgbleds_val (cls s2)) AND 7 = color
    \<and> (index (leds s ! h) - b) * 3 < (index (leds s ! h) - j) * 3
    \<and> shift_count (leds s2 ! h) (cls s2) = PInt ((index (leds s ! h) - j) * 3)
    \<and> read (leds s2 ! h) (cls s2) =
        Inr (drop_bit (nat ((index (leds s ! h) - j) * 3)) (rgbleds_val (cls s2)) AND 7)
    \<and> (0 \<le> color2 \<and> color2 < 8 \<longrightarrow>
         rgbleds_val (cls (exec pl (On h color2) s2)) =
           (rgbleds_val (cls s2) AND NOT (push_bit (nat ((index (leds s ! h) - j) * 3)) 7))
             OR push_bit (nat ((index (leds s ! h) - j) * 3)) color2)
    \<and> rgbleds_val (cls (exec pl (Off h) s2)) =
         rgbleds_val (cls s2) AND NOT (push_bit (nat ((index (leds s ! h) - j) * 3)) 7)"
proof -
  let ?i = "index (leds s ! h)"
  obtain r self1 c1 where o: "on color (leds s ! h) (cls s) = (r, self1, c1)"
    by (cases "on color (leds s ! h) (cls s)")
  from shared_object_facts [OF assms(1,2,3)] assms(4)
  have b: "b \<le> ?i" by simp
  have np: "\<not> 0 < offset (leds s ! h)" using assms(3) by simp
  have bound: "mmio (cls s) \<noteq> None" by (rule object_facts(5) [OF assms(1,2)])
  define n where "n = nat ((?i - b) * 3)"
  note os = on_shared [OF np assms(4) b bound assms(5,6) o, folded n_def]
  have s1: "s1 = \<lparr>cls = c1, leds = leds s\<rparr>"
    using assms(2,7) o os(2) by simp
  have bound1: "mmio c1 \<noteq> None" by (rule on_keeps(4) [OF o bound])
  have i: "init j ip_name 0 pl c1 =
      (Inr \<lparr>index = j, offset = 0, val = 0\<rparr>, c1\<lparr>rgbleds_start_index := PInt j\<rparr>)"
    using init_bound [OF bound1, of 0 j ip_name pl] os(3) assms(8) by simp
  have s2: "s2 = \<lparr>cls = c1\<lparr>rgbleds_start_index := PInt j\<rparr>,
      leds = leds s @ [\<lparr>index = j, offset = 0, val = 0\<rparr>]\<rparr>"
    using assms(9) s1 i by simp
  have nth: "leds s2 ! h = leds s ! h"
    using s2 assms(2) by (simp add: nth_append)
  have h2: "h < length (leds s2)" using s2 assms(2) by simp
  have start2: "rgbleds_start_index (cls s2) = PInt j" using s2 by simp
  have val2: "rgbleds_val (cls s2) = rgbleds_val c1" using s2 by simp
  have bound2: "mmio (cls s2) \<noteq> None" using s2 bound1 by simp
  have j: "j \<le> index (leds s2 ! h)" using nth b assms(8) by simp
  have np2: "\<not> 0 < offset (leds s2 ! h)" using nth np by simp
  have old: "drop_bit n (rgbleds_val (cls s2)) AND 7 = color"
    by (simp only: val2 os(4) field_roundtrip [OF assms(5,6)])
  have rd: "read (leds s2 ! h) (cls s2) =
      Inr (drop_bit (nat ((?i - j) * 3)) (rgbleds_val (cls s2)) AND 7)"
    using read_shared [OF np2 start2 j] nth by simp
  have on2: "rgbleds_val (cls (exec pl (On h color2) s2)) =
      (rgbleds_val (cls s2) AND NOT (push_bit (nat ((?i - j) * 3)) 7))
        OR push_bit (nat ((?i - j) * 3)) color2" if c2: "0 \<le> color2" "color2 < 8"
  proof -
    obtain r2 self2 c2' where o2: "on color2 (leds s2 ! h) (cls s2) = (r2, self2, c2')"
      by (cases "on color2 (leds s2 ! h) (cls s2)")
    from on_shared(4) [OF np2 start2 j bound2 c2 o2] h2 o2 nth
    show ?thesis by simp
  qed
  have off2: "rgbleds_val (cls (exec pl (Off h) s2)) =
      rgbleds_val (cls s2) AND NOT (push_bit (nat ((?i - j) * 3)) 7)"
  proof -
    obtain r2 self2 c2' where o2: "off (leds s2 ! h) (cls s2) = (r2, self2, c2')"
      by (cases "off (leds s2 ! h) (cls s2)")
    from off_shared(4) [OF np2 start2 j bound2 o2] h2 o2 nth
    show ?thesis by simp
  qed
  have larger: "(?i - b) * 3 < (?i - j) * 3" using assms(8) by simp
  have sc: "shift_count (leds s2 ! h) (cls s2) = PInt ((?i - j) * 3)"
    using shift_count_shared [OF start2, of "leds s2 ! h"] nth by simp
  have l2: "leds s2 = leds s1 @ [\<lparr>index = j, offset = 0, val = 0\<rparr>]"
    using s1 s2 by simp
  have v2: "rgbleds_val (cls s2) = rgbleds_val (cls s1)" using s1 s2 by simp
  have on2': "0 \<le> color2 \<and> color2 < 8 \<longrightarrow>
      rgbleds_val (cls (exec pl (On h color2) s2)) =
        (rgbleds_val (cls s2) AND NOT (push_bit (nat ((?i - j) * 3)) 7))
          OR push_bit (nat ((?i - j) * 3)) color2"
    using on2 by blast
  note old' = old [unfolded n_def]
  show ?thesis
    by (intro conjI) (fact start2 v2 l2 old' larger sc rd on2' off2)+
qed

text \<open>
  The indices 3 and then 1: the object with index 3 sets colour 5 and reads it back; once
  the object with index 1 exists the baseline is 1, the register still holds 5, the first
  object reads 0 and the new one reads 5; colour 7 set on the first object then goes to
  the bits 6 to 8.
\<close>

theorem lower_index_moves_baseline_only_witness:
  "(0::nat) < length (leds (run example_pl [New 3 ''rgbleds_gpio'' 0]))
   \<and> offset (leds (run example_pl [New 3 ''rgbleds_gpio'' 0]) ! 0) = 0
   \<and> rgbleds_start_index (cls (run example_pl [New 3 ''rgbleds_gpio'' 0])) = PInt 3
   \<and> rgbleds_start_index (cls (run example_pl
        [New 3 ''rgbleds_gpio'' 0, On 0 5, New 1 ''rgbleds_gpio'' 0])) = PInt 1
   \<and> rgbleds_val (cls (run example_pl
        [New 3 ''rgbleds_gpio'' 0, On 0 5, New 1 ''rgbleds_gpio'' 0])) = 5
   \<and> read (leds (run example_pl [New 3 ''rgbleds_gpio'' 0, On 0 5]) ! 0)
        (cls (run example_pl [New 3 ''rgbleds_gpio'' 0, On 0 5])) = Inr 5
   \<and> read (leds (run example_pl [New 3 ''rgbleds_gpio'' 0, On 0 5, New 1 ''rgbleds_gpio'' 0]) ! 0)
        (cls (run example_pl [New 3 ''rgbleds_gpio'' 0, On 0 5, New 1 ''rgbleds_gpio'' 0])) = Inr 0
   \<and> read (leds (run example_pl [New 3 ''rgbleds_gpio'' 0, On 0 5, New 1 ''rgbleds_gpio'' 0]) ! 1)
        (cls (run example_pl [New 3 ''rgbleds_gpio'' 0, On 0 5, New 1 ''rgbleds_gpio'' 0])) = Inr 5
   \<and> rgbleds_val (cls (run example_pl
        [New 3 ''rgbleds_gpio'' 0, On 0 5, New 1 ''rgbleds_gpio'' 0, On 0 7])) = 453"
  using lower_index_moves_baseline_only [of "run example_pl [New 3 ''rgbleds_gpio'' 0]"
      example_pl "[New 3 ''rgbleds_gpio'' 0]" 0 3 5
      "exec example_pl (On 0 5) (run example_pl [New 3 ''rgbleds_gpio'' 0])" 1
      "exec example_pl (New 1 ''rgbleds_gpio'' 0)
         (exec example_pl (On 0 5) (run example_pl [New 3 ''rgbleds_gpio'' 0]))"
      "''rgbleds_gpio''" 7]
  by (simp add: eval_defs)

text \<open>
  C1, as stated, fails for the constructor: in a fresh process, \<^verbatim>\<open>RGBLED(0, offset=-4)\<close>
  raises \<^verbatim>\<open>ValueError\<close> after it has bound \<^verbatim>\<open>_mmio\<close>.
\<close>

theorem init_binds_accessor_before_raising:
  "invalid_argument (fst (init 0 ''rgbleds_gpio'' (- 4) example_pl class_initial))
   \<and> mmio class_initial = None
   \<and> mmio (snd (init 0 ''rgbleds_gpio'' (- 4) example_pl class_initial))
        = Some (MMIO_new 1092681728 16)
   \<and> snd (init 0 ''rgbleds_gpio'' (- 4) example_pl class_initial) \<noteq> class_initial"
  by (simp add: init_def example_pl_def class_initial_def MMIO_new_def)

text \<open>
  C1, amended. \<^verbatim>\<open>on\<close> and \<^verbatim>\<open>write\<close> with a colour outside 0 to 7 leave the object and the
  class attributes as they were, and the register write with an offset that is negative
  or not a multiple of 4 leaves the class attributes as they were. A constructor call
  with such an offset that raises \<^verbatim>\<open>ValueError\<close> leaves \<^verbatim>\<open>_rgbleds_val\<close> and
  \<^verbatim>\<open>_rgbleds_start_index\<close> as they were; it leaves \<^verbatim>\<open>_mmio\<close> as it was when that was
  bound already, and otherwise has bound it to the accessor of the named block.
\<close>

theorem invalid_argument_leaves_state:
  "(\<not> (0 \<le> color \<and> color < 8) \<longrightarrow>
      snd (on color self c) = (self, c) \<and> snd (write_led color self c) = (self, c))
   \<and> (ofs < 0 \<or> ofs mod 4 \<noteq> 0 \<longrightarrow>
        snd (set_rgbleds_value v ofs c) = c
        \<and> (invalid_argument (fst (init idx ip_name ofs pl c)) \<longrightarrow>
             rgbleds_val (snd (init idx ip_name ofs pl c)) = rgbleds_val c
             \<and> rgbleds_start_index (snd (init idx ip_name ofs pl c)) = rgbleds_start_index c
             \<and> (mmio c \<noteq> None \<longrightarrow> snd (init idx ip_name ofs pl c) = c)
             \<and> (mmio c = None \<longrightarrow>
                  mmio (snd (init idx ip_name ofs pl c))
                    = map_option (\<lambda>base. MMIO_new base 16) (pl ip_name))))"
proof (intro conjI impI)
  assume "\<not> (0 \<le> color \<and> color < 8)"
  then show "snd (on color self c) = (self, c)" "snd (write_led color self c) = (self, c)"
    by (simp_all add: on_def write_led_def)
next
  assume "ofs < 0 \<or> ofs mod 4 \<noteq> 0"
  then show "snd (set_rgbleds_value v ofs c) = c"
    by (auto simp add: set_rgbleds_value_def)
next
  assume inv: "ofs < 0 \<or> ofs mod 4 \<noteq> 0"
    and "invalid_argument (fst (init idx ip_name ofs pl c))"
  then show "rgbleds_val (snd (init idx ip_name ofs pl c)) = rgbleds_val c"
    "rgbleds_start_index (snd (init idx ip_name ofs pl c)) = rgbleds_start_index c"
    by (auto simp add: init_def Let_def split: option.splits)
next
  assume "ofs < 0 \<or> ofs mod 4 \<noteq> 0" "mmio c \<noteq> None"
  then show "snd (init idx ip_name ofs pl c) = c"
    by (simp add: init_invalid_offset(1))
next
  assume inv: "ofs < 0 \<or> ofs mod 4 \<noteq> 0" and none: "mmio c = None"
  show "mmio (snd (init idx ip_name ofs pl c))
      = map_option (\<lambda>base. MMIO_new base 16) (pl ip_name)"
  proof (cases "pl ip_name")
    case None
    then show ?thesis using none by (simp add: init_invalid_offset(3) [OF inv none])
  next
    case (Some base)
    then show ?thesis by (simp add: init_invalid_offset(2) [OF inv none])
  qed
qed

text \<open>
  Colour 8, offset 6 for the register write and for a constructor call after the example
  program, where the accessor is bound, and offset -4 for a constructor call in a fresh
  process.
\<close>

theorem invalid_argument_leaves_state_witness:
  "snd (on 8 \<lparr>index = 0, offset = 0, val = 0\<rparr> (cls (run example_pl example_calls)))
     = (\<lparr>index = 0, offset = 0, val = 0\<rparr>, cls (run example_pl example_calls))
   \<and> snd (set_rgbleds_value 7 6 (cls (run example_pl example_calls)))
       = cls (run example_pl example_calls)
   \<and> invalid_argument (fst (init 0 ''rgbleds_gpio'' 6 example_pl (cls (run example_pl example_calls))))
   \<and> mmio (cls (run example_pl example_calls)) \<noteq> None
   \<and> snd (init 0 ''rgbleds_gpio'' 6 example_pl (cls (run example_pl example_calls)))
       = cls (run example_pl example_calls)
   \<and> invalid_argument (fst (init 0 ''rgbleds_gpio'' (- 4) example_pl class_initial))
   \<and> rgbleds_val (snd (init 0 ''rgbleds_gpio'' (- 4) example_pl class_initial)) = 0
   \<and> rgbleds_start_index (snd (init 0 ''rgbleds_gpio'' (- 4) example_pl class_initial)) = PInf"
  using invalid_argument_leaves_state [of 8 "\<lparr>index = 0, offset = 0, val = 0\<rparr>"
      "cls (run example_pl example_calls)" 6 7 0 "''rgbleds_gpio''" example_pl]
    invalid_argument_leaves_state [of 8 "\<lparr>index = 0, offset = 0, val = 0\<rparr>"
      class_initial "- 4" 7 0 "''rgbleds_gpio''" example_pl]
  by (simp add: eval_defs)

text \<open>
  C8, as stated, fails for the constructor: in a fresh process, with a name that the table
  does not hold, \<^verbatim>\<open>RGBLED(0, "leds_gpio", -4)\<close> raises \<^verbatim>\<open>KeyError\<close>, not \<^verbatim>\<open>ValueError\<close>.
\<close>

theorem init_unresolved_name_raises_KeyError:
  "(- 4 :: int) < 0
   \<and> fst (init 0 ''leds_gpio'' (- 4) example_pl class_initial) = Inl (KeyError ''leds_gpio'')
   \<and> \<not> invalid_argument (fst (init 0 ''leds_gpio'' (- 4) example_pl class_initial))"
  by (simp add: init_def example_pl_def class_initial_def)

text \<open>
  C8, amended. For every offset that is negative or not a multiple of 4, the register
  write raises \<^verbatim>\<open>ValueError\<close>, and the constructor raises \<^verbatim>\<open>ValueError\<close> whenever
  \<^verbatim>\<open>_mmio\<close> is bound already or the name of the block resolves; when neither holds the
  constructor raises the \<^verbatim>\<open>KeyError\<close> of the lookup, which comes before the checks of
  the offset.
\<close>

theorem invalid_offset_is_rejected:
  assumes "ofs < 0 \<or> ofs mod 4 \<noteq> 0"
  shows "invalid_argument (fst (set_rgbleds_value v ofs c))
    \<and> (mmio c \<noteq> None \<or> pl ip_name \<noteq> None \<longrightarrow>
         invalid_argument (fst (init idx ip_name ofs pl c)))
    \<and> (mmio c = None \<and> pl ip_name = None \<longrightarrow>
         fst (init idx ip_name ofs pl c) = Inl (KeyError ip_name))"
proof (intro conjI impI)
  show "invalid_argument (fst (set_rgbleds_value v ofs c))"
    using assms by (auto simp add: set_rgbleds_value_def)
next
  assume "mmio c \<noteq> None \<or> pl ip_name \<noteq> None"
  then show "invalid_argument (fst (init idx ip_name ofs pl c))"
    using init_invalid_offset(1) [OF assms, of c idx ip_name pl]
      init_invalid_offset(2) [OF assms, of c pl ip_name _ idx]
    by (cases "mmio c") auto
next
  assume "mmio c = None \<and> pl ip_name = None"
  then show "fst (init idx ip_name ofs pl c) = Inl (KeyError ip_name)"
    using init_invalid_offset(3) [OF assms, of c pl ip_name idx] by simp
qed

text \<open>
  The offsets -4 and 6: the register write, the constructor in a fresh process with a
  name that resolves, the constructor with an unknown name after the example program,
  and the constructor with an unknown name in a fresh process.
\<close>

theorem invalid_offset_is_rejected_witness:
  "invalid_argument (fst (set_rgbleds_value 1 (- 4) class_initial))
   \<and> invalid_argument (fst (set_rgbleds_value 1 6 class_initial))
   \<and> invalid_argument (fst (init 0 ''rgbleds_gpio'' (- 4) example_pl class_initial))
   \<and> invalid_argument (fst (init 0 ''rgbleds_gpio'' 6 example_pl class_initial))
   \<and> invalid_argument (fst (init 0 ''leds_gpio'' 6 example_pl (cls (run example_pl example_calls))))
   \<and> fst (init 0 ''leds_gpio'' 6 example_pl class_initial) = Inl (KeyError ''leds_gpio'')"
  using invalid_offset_is_rejected [of "- 4" 1 class_initial example_pl "''rgbleds_gpio''" 0]
    invalid_offset_is_rejected [of 6 1 class_initial example_pl "''rgbleds_gpio''" 0]
    invalid_offset_is_rejected [of 6 1 "cls (run example_pl example_calls)" example_pl "''leds_gpio''" 0]
    invalid_offset_is_rejected [of 6 1 class_initial example_pl "''leds_gpio''" 0]
  by (simp add: eval_defs)

end
